theory Spec2Isabelle
  imports Main "HOL-Library.AList"
begin

section \<open>The shell's session loop (src/main.c) and print_env_error (src/print_env_error.c)\<close>

text \<open>
  The two C files are embedded function by function. A C \<open>char *\<close> is a \<open>string option\<close>
  (\<open>None\<close> is \<open>NULL\<close>), the C \<open>int\<close>s are \<open>int\<close> (no claim reaches the overflow of
  \<open>cmd_idx++\<close>), and a call of \<open>exit\<close> is the value \<open>Exit n\<close> of the type \<open>ctl\<close>, so that a
  function that may terminate the process returns either \<open>Exit n\<close> or \<open>Ret x\<close>.

  Everything outside the two files (the streams, the terminal, the process environment, the
  children) is a state \<open>'w\<close>, and the functions that \<open>shell.h\<close> declares but the two files do
  not define are the fields of the record \<open>shell_h\<close>: the embedding is a function of them.
  The observable actions of the two files, and the calls they make, are logged as events.
\<close>

datatype 'a ctl = Exit int | Ret 'a

datatype FILE = STDIN | SCRIPT string

datatype event =
    PrintFileError string int string
  | Free
  | Fclose
  | WriteNewline
  | FreeAliases
  | FreeMemory
  | ReadCommand
  | CheckForComments
  | HandleComments
  | CheckForOperator string
  | HandleOperators string string
  | TokenizeCommand string
  | ProcessCommand "string list"

text \<open>
  The variables of \<open>main\<close> that it hands to its callees by reference (\<open>&exit_status\<close>,
  \<open>&aliases\<close>, \<open>&new_env\<close>), together with the outside world.
\<close>

record 'w vars =
  exit_status :: int
  aliases :: "(string \<times> string) list"
  new_env :: "string option"
  world :: 'w

record 'w shell_h =
  fopen_r :: "string \<Rightarrow> 'w \<Rightarrow> FILE option"
  isatty_stdin :: "'w \<Rightarrow> bool"
  read_command :: "FILE \<Rightarrow> int \<Rightarrow> 'w \<Rightarrow> string option \<times> 'w"
  check_for_comments :: "string option \<Rightarrow> int"
  handle_comments :: "string option \<Rightarrow> string option"
  check_for_operator :: "string \<Rightarrow> string option"
  handle_operators ::
    "string list \<Rightarrow> string \<Rightarrow> string \<Rightarrow> int \<Rightarrow> 'w vars \<Rightarrow> 'w vars ctl \<times> event list"
  tokenize_command :: "string \<Rightarrow> string \<Rightarrow> string list option"
  process_command :: "string list \<Rightarrow> string list \<Rightarrow> int \<Rightarrow> 'w vars \<Rightarrow> 'w vars ctl"

subsection \<open>print_env_error\<close>

text \<open>
  \<open>print_shell_error\<close> is not defined in the two files: it is the first argument, a
  function that writes the diagnostic to the world.
\<close>

definition env_err_msg :: string where
  "env_err_msg = ''Unable to add/remove from environment''"

definition print_env_error ::
  "(string \<Rightarrow> int \<Rightarrow> string list \<Rightarrow> string \<Rightarrow> 'w \<Rightarrow> 'w)
     \<Rightarrow> string list \<Rightarrow> string \<Rightarrow> int \<Rightarrow> 'w \<Rightarrow> int \<times> 'w" where
  "print_env_error print_shell_error cmd shell_name cmd_idx w =
     (let exit_status = 2;
          w' = print_shell_error shell_name cmd_idx cmd env_err_msg w
      in (exit_status, w'))"

subsection \<open>read_and_handle_comments\<close>

text \<open>The result is the returned line, the flag written to \<open>*is_comment\<close>, the world and the calls made.\<close>

definition read_and_handle_comments ::
  "('w, 'x) shell_h_scheme \<Rightarrow> FILE option \<Rightarrow> int \<Rightarrow> 'w \<Rightarrow> string option \<times> int \<times> 'w \<times> event list" where
  "read_and_handle_comments c file argc w =
     (let (cmd_line, w') =
            (case file of
               Some f \<Rightarrow> read_command c f argc w
             | None \<Rightarrow> read_command c STDIN argc w);
          is_comment = check_for_comments c cmd_line
      in if is_comment = 1
         then (handle_comments c cmd_line, is_comment, w',
               [ReadCommand, CheckForComments, HandleComments])
         else (cmd_line, is_comment, w', [ReadCommand, CheckForComments]))"

subsection \<open>handle_exit\<close>

text \<open>
  \<open>status\<close> is the value read through the pointer \<open>exit_status\<close>, \<open>buf\<close> the pointer
  \<open>new_env\<close>; \<open>isatty(STDIN_FILENO)\<close> is asked of the world.
\<close>

definition handle_exit ::
  "('w, 'x) shell_h_scheme \<Rightarrow> int \<Rightarrow> int \<Rightarrow> FILE option \<Rightarrow> string option \<Rightarrow> 'w \<Rightarrow> unit ctl \<times> event list" where
  "handle_exit c is_comment status file buf w =
     (Exit status,
      (if file \<noteq> None then [Fclose] else []) @
      (if is_comment = 0 then (if isatty_stdin c w then [WriteNewline] else []) else []) @
      (if buf \<noteq> None then [Free] else []))"

subsection \<open>handle_command_exec\<close>

definition delims :: string where
  "delims = [CHR '' '', CHR 0x09, CHR 0x0A]"

definition handle_command_exec ::
  "('w, 'x) shell_h_scheme \<Rightarrow> string \<Rightarrow> string list \<Rightarrow> int \<Rightarrow> 'w vars \<Rightarrow> 'w vars ctl \<times> event list" where
  "handle_command_exec c cmd_line argv cmd_idx v =
     (case check_for_operator c cmd_line of
        Some operator \<Rightarrow>
          (case handle_operators c argv cmd_line operator cmd_idx v of
             (r, es) \<Rightarrow> (r, CheckForOperator cmd_line # HandleOperators cmd_line operator # es))
      | None \<Rightarrow>
          (case tokenize_command c cmd_line delims of
             None \<Rightarrow> (Ret v, [CheckForOperator cmd_line, TokenizeCommand cmd_line])
           | Some cmd \<Rightarrow>
               (process_command c cmd argv cmd_idx v,
                [CheckForOperator cmd_line, TokenizeCommand cmd_line, ProcessCommand cmd])))"

subsection \<open>main\<close>

datatype outcome = Exited int "event list" | Returned int "event list"

text \<open>
  The body of \<open>do { ... } while (1)\<close>. The loop has no bound, so it is a partial function:
  \<open>None\<close> is a session that never ends. \<open>continue\<close> and the end of the body both go to the
  test of the loop condition; the statements after the loop are the \<open>else\<close> branch of that test.
\<close>

partial_function (option) shell_loop ::
  "('w, 'x) shell_h_scheme \<Rightarrow> int \<Rightarrow> string list \<Rightarrow> FILE option \<Rightarrow> int \<Rightarrow> 'w vars \<Rightarrow> event list
     \<Rightarrow> outcome option" where
  "shell_loop c argc argv file cmd_idx v tr =
     (case read_and_handle_comments c file argc (world v) of
        (cmd_line, is_comment, w', es) \<Rightarrow>
          (case cmd_line of
             None \<Rightarrow>
               (case handle_exit c is_comment (exit_status v) file (new_env v) w' of
                  (Exit n, es') \<Rightarrow> Some (Exited n (tr @ es @ es'))
                | (Ret u, es') \<Rightarrow>
                    (if (1::int) \<noteq> 0
                     then shell_loop c argc argv file cmd_idx (v\<lparr>world := w'\<rparr>)
                            (tr @ es @ es' @ [FreeAliases, Free])
                     else Some (Returned 0
                            (tr @ es @ es' @ [FreeAliases, Free] @
                             (if file \<noteq> None then [Fclose] else []) @ [FreeMemory]))))
           | Some l \<Rightarrow>
               (case handle_command_exec c l argv (cmd_idx + 1) (v\<lparr>world := w'\<rparr>) of
                  (Exit n, es') \<Rightarrow> Some (Exited n (tr @ es @ es'))
                | (Ret v', es') \<Rightarrow>
                    (if (1::int) \<noteq> 0
                     then shell_loop c argc argv file (cmd_idx + 1) v' (tr @ es @ es')
                     else Some (Returned 0
                            (tr @ es @ es' @
                             (if file \<noteq> None then [Fclose] else []) @ [FreeMemory]))))))"

declare shell_loop.simps [code]

text \<open>
  \<open>main\<close>: \<open>argc\<close> is the length of \<open>argv\<close>, the result of \<open>malloc(1024)\<close> is the argument
  \<open>buf\<close> (\<open>None\<close> when the allocation fails).
\<close>

definition main :: "('w, 'x) shell_h_scheme \<Rightarrow> string list \<Rightarrow> string option \<Rightarrow> 'w \<Rightarrow> outcome option" where
  "main c argv buf w =
     (let argc = int (length argv);
          v = \<lparr>exit_status = 0, aliases = [], new_env = buf, world = w\<rparr>;
          cmd_idx = 0
      in if argc > 1
         then (case fopen_r c (argv ! 1) w of
                 None \<Rightarrow> Some (Exited 2 [PrintFileError (argv ! 0) cmd_idx (argv ! 1), Free])
               | Some f \<Rightarrow> shell_loop c argc argv (Some f) cmd_idx v [])
         else shell_loop c argc argv None cmd_idx v [])"

section \<open>The parts of the shell that the two files call and do not define\<close>

text \<open>
  \<open>shell.h\<close> and the files that define the tokenizer, the operator splitter, the built-ins
  and the reader are not among the sources. The definitions of this section are written
  from the specification, for the claims that are about those parts, and they give the
  parametric embedding above one concrete instance to run.
\<close>

subsection \<open>Tokenizer\<close>

text \<open>
  Modelled from the spec: \<open>tokenize_command\<close> (called in \<open>handle_command_exec\<close>, defined
  nowhere in the sources). It splits its first argument at runs of the characters of its
  second argument, as \<open>main.c\<close> calls it with the delimiters space, tab and newline, and
  it returns no vector (\<open>NULL\<close>) when there is no token.
\<close>

function split_tokens :: "string \<Rightarrow> string \<Rightarrow> string list" where
  "split_tokens d s =
     (let r = dropWhile (\<lambda>ch. ch \<in> set d) s
      in if r = [] then []
         else takeWhile (\<lambda>ch. ch \<notin> set d) r # split_tokens d (dropWhile (\<lambda>ch. ch \<notin> set d) r))"
  by pat_completeness auto
termination
proof (relation "measure (\<lambda>(d, s). length s)")
  show "wf (measure (\<lambda>(d, s). length s))" by simp
next
  fix d s :: string and r
  assume r: "r = dropWhile (\<lambda>ch. ch \<in> set d) s" and ne: "r \<noteq> []"
  from ne have "hd r \<notin> set d" unfolding r by (rule hd_dropWhile)
  with ne have "length (dropWhile (\<lambda>ch. ch \<notin> set d) r) < length r"
    by (cases r) (simp_all add: le_imp_less_Suc length_dropWhile_le)
  also have "length r \<le> length s" unfolding r by (rule length_dropWhile_le)
  finally show "((d, dropWhile (\<lambda>ch. ch \<notin> set d) r), (d, s)) \<in> measure (\<lambda>(d, s). length s)"
    by simp
qed

declare split_tokens.simps [simp del]

text \<open>
  Modelled from the spec: \<open>tokenize_command\<close> itself, the vector of the tokens, or \<open>NULL\<close>
  for a segment that holds none (empty, or whitespace only).
\<close>

definition tokenize_command_spec :: "string \<Rightarrow> string \<Rightarrow> string list option" where
  "tokenize_command_spec s d = (case split_tokens d s of [] \<Rightarrow> None | t # ts \<Rightarrow> Some (t # ts))"

text \<open>
  The Tokenizer in the words of the specification: strip a trailing newline, then split
  at runs of space and tab.
\<close>

definition strip_newline :: "string \<Rightarrow> string" where
  "strip_newline s = (if s \<noteq> [] \<and> last s = CHR 0x0A then butlast s else s)"

definition spec_tokenizer :: "string \<Rightarrow> string list option" where
  "spec_tokenizer seg =
     (case split_tokens [CHR '' '', CHR 0x09] (strip_newline seg) of
        [] \<Rightarrow> None
      | t # ts \<Rightarrow> Some (t # ts))"

definition blank :: "string \<Rightarrow> bool" where
  "blank s = list_all (\<lambda>ch. ch \<in> set delims) s"

subsection \<open>Operator Splitter\<close>

text \<open>
  Modelled from the spec: \<open>check_for_operator\<close> and \<open>handle_operators\<close> (called in
  \<open>handle_command_exec\<close>, defined nowhere in the sources). A line is cut at \<open>;\<close>, \<open>&&\<close>
  and \<open>||\<close> into segments, each tagged with the operator before it. The chain is run from
  left to right: the gate of a segment is tested on the exit status of the session at that
  moment, a segment whose gate passes is tokenized and dispatched, a segment with no token
  is skipped and leaves the status as it is. A line that begins or ends with an operator is
  the syntax condition \<open>syn\<close> (it reports the error and sets a non-zero status) and nothing
  of the chain runs.
\<close>

datatype operator = NONE | AND | OR | SEQ

text \<open>
  Modelled from the spec: \<open>check_for_operator\<close>, the first chaining operator of the line,
  or \<open>NULL\<close> when the line has none.
\<close>

fun check_for_operator_spec :: "string \<Rightarrow> string option" where
  "check_for_operator_spec [] = None"
| "check_for_operator_spec (x # xs) =
     (if x = CHR '';'' then Some '';''
      else if x = CHR ''&'' \<and> xs \<noteq> [] \<and> hd xs = CHR ''&'' then Some ''&&''
      else if x = CHR ''|'' \<and> xs \<noteq> [] \<and> hd xs = CHR ''|'' then Some ''||''
      else check_for_operator_spec xs)"

text \<open>
  Modelled from the spec: the segments of a line, cut at the operators; the second argument
  collects the characters of the segment being read.
\<close>

fun split_line :: "operator \<Rightarrow> string \<Rightarrow> string \<Rightarrow> (operator \<times> string) list" where
  "split_line op acc [] = [(op, rev acc)]"
| "split_line op acc (x # xs) =
     (if x = CHR '';'' then (op, rev acc) # split_line SEQ [] xs
      else if x = CHR ''&'' \<and> xs \<noteq> [] \<and> hd xs = CHR ''&'' then (op, rev acc) # split_line AND [] (tl xs)
      else if x = CHR ''|'' \<and> xs \<noteq> [] \<and> hd xs = CHR ''|'' then (op, rev acc) # split_line OR [] (tl xs)
      else split_line op (x # acc) xs)"

text \<open>
  Modelled from the spec: the gate of a segment, on the operator before it and the exit
  status of the session.
\<close>

fun gate :: "operator \<Rightarrow> int \<Rightarrow> bool" where
  "gate NONE s = True"
| "gate SEQ s = True"
| "gate AND s = (s = 0)"
| "gate OR s = (s \<noteq> 0)"

text \<open>
  Modelled from the spec: one segment whose gate has passed goes to the Tokenizer, then its
  vector to the Dispatcher; a chain does so segment by segment, and stops when the
  Dispatcher ends the process.
\<close>

definition run_segment ::
  "(string \<Rightarrow> string \<Rightarrow> string list option) \<Rightarrow> (string list \<Rightarrow> string list \<Rightarrow> int \<Rightarrow> 'w vars \<Rightarrow> 'w vars ctl)
     \<Rightarrow> string list \<Rightarrow> int \<Rightarrow> string \<Rightarrow> 'w vars \<Rightarrow> 'w vars ctl \<times> event list" where
  "run_segment tk dp argv cmd_idx seg v =
     (case tk seg delims of
        None \<Rightarrow> (Ret v, [TokenizeCommand seg])
      | Some cmd \<Rightarrow> (dp cmd argv cmd_idx v, [TokenizeCommand seg, ProcessCommand cmd]))"

fun run_chain ::
  "(string \<Rightarrow> string \<Rightarrow> string list option) \<Rightarrow> (string list \<Rightarrow> string list \<Rightarrow> int \<Rightarrow> 'w vars \<Rightarrow> 'w vars ctl)
     \<Rightarrow> string list \<Rightarrow> int \<Rightarrow> (operator \<times> string) list \<Rightarrow> 'w vars \<Rightarrow> 'w vars ctl \<times> event list" where
  "run_chain tk dp argv cmd_idx [] v = (Ret v, [])"
| "run_chain tk dp argv cmd_idx ((op, seg) # rest) v =
     (if gate op (exit_status v)
      then (case run_segment tk dp argv cmd_idx seg v of
              (Exit n, es) \<Rightarrow> (Exit n, es)
            | (Ret v', es) \<Rightarrow>
                (case run_chain tk dp argv cmd_idx rest v' of (r, es') \<Rightarrow> (r, es @ es')))
      else run_chain tk dp argv cmd_idx rest v)"

text \<open>
  Modelled from the spec: \<open>handle_operators\<close>, the syntax condition or the chain of the
  segments of the line.
\<close>

definition handle_operators_spec ::
  "(string \<Rightarrow> string \<Rightarrow> string list option) \<Rightarrow> (string list \<Rightarrow> string list \<Rightarrow> int \<Rightarrow> 'w vars \<Rightarrow> 'w vars ctl)
     \<Rightarrow> (string list \<Rightarrow> int \<Rightarrow> 'w vars \<Rightarrow> 'w vars)
     \<Rightarrow> string list \<Rightarrow> string \<Rightarrow> string \<Rightarrow> int \<Rightarrow> 'w vars \<Rightarrow> 'w vars ctl \<times> event list" where
  "handle_operators_spec tk dp syn argv cmd_line operator cmd_idx v =
     (let segs = split_line NONE [] cmd_line
      in if blank (snd (hd segs)) \<or> blank (snd (last segs))
         then (Ret (syn argv cmd_idx v), [])
         else run_chain tk dp argv cmd_idx segs v)"

text \<open>
  Sequencing of two steps that may end the process: the second step runs on the variables
  the first one returns, and the logs are appended.
\<close>

definition and_then :: "'a ctl \<times> event list \<Rightarrow> ('a \<Rightarrow> 'b ctl \<times> event list) \<Rightarrow> 'b ctl \<times> event list" where
  "and_then r k =
     (case r of
        (Exit n, es) \<Rightarrow> (Exit n, es)
      | (Ret x, es) \<Rightarrow> (case k x of (r', es') \<Rightarrow> (r', es @ es')))"

text \<open>
  The order of the stages in a log of a chain: each segment is tokenized, and the vector
  dispatched next is the one the tokenizer returned for that segment; a segment with no
  vector is followed by no dispatch.
\<close>

fun tokenize_then_dispatch :: "(string \<Rightarrow> string \<Rightarrow> string list option) \<Rightarrow> event list \<Rightarrow> bool" where
  "tokenize_then_dispatch tk [] = True"
| "tokenize_then_dispatch tk (e # es) =
     (case e of
        TokenizeCommand seg \<Rightarrow>
          (case es of
             ProcessCommand cmd # es' \<Rightarrow> tk seg delims = Some cmd \<and> tokenize_then_dispatch tk es'
           | _ \<Rightarrow> tk seg delims = None \<and> tokenize_then_dispatch tk es)
      | _ \<Rightarrow> False)"

subsection \<open>The world of the instance\<close>

text \<open>
  Standard input and the script files as lists of lines, the terminal flag, the process
  environment, whether an allocation succeeds, the diagnostics written so far, and the
  external programs with their termination codes.
\<close>

record sys =
  stdin_lines :: "string list"
  files :: "(string \<times> string list) list"
  script_pos :: nat
  tty :: bool
  environ :: "(string \<times> string) list"
  heap_ok :: bool
  diagnostics :: "(string \<times> int \<times> string list \<times> string) list"
  programs :: "(string \<times> int) list"

text \<open>
  Modelled from the spec: the error reporter \<open>print_shell_error\<close> (called in
  \<open>print_env_error\<close>, defined nowhere in the sources). It takes the invocation name, the
  command index, the token vector and a message, and writes them to standard error.
\<close>

definition print_shell_error_spec :: "string \<Rightarrow> int \<Rightarrow> string list \<Rightarrow> string \<Rightarrow> sys \<Rightarrow> sys" where
  "print_shell_error_spec shell_name cmd_idx cmd msg w =
     w\<lparr>diagnostics := diagnostics w @ [(shell_name, cmd_idx, cmd, msg)]\<rparr>"

subsection \<open>Environment Table\<close>

text \<open>
  Modelled from the spec: the Environment Table and the environment built-ins (defined
  nowhere in the sources; \<open>print_env_error\<close> is their error path). The table maps a name to
  one value; \<open>set\<close> inserts or overwrites, \<open>unset\<close> removes. The first argument tells
  whether the allocation that the operation needs succeeds: when it fails the operation
  returns no table, and the built-in reports through \<open>print_env_error\<close>, stores the value
  it returns as the exit status, and keeps the table it had.
\<close>

type_synonym env_table = "(string \<times> string) list"

definition env_get :: "string \<Rightarrow> env_table \<Rightarrow> string option" where
  "env_get n t = map_of t n"

definition env_set :: "bool \<Rightarrow> string \<Rightarrow> string \<Rightarrow> env_table \<Rightarrow> env_table option" where
  "env_set alloc n x t = (if alloc then Some (AList.update n x t) else None)"

definition env_unset :: "bool \<Rightarrow> string \<Rightarrow> env_table \<Rightarrow> env_table option" where
  "env_unset alloc n t = (if alloc then Some (AList.delete n t) else None)"

datatype env_op = SetVar string string | UnsetVar string

definition env_builtin :: "env_op \<Rightarrow> string list \<Rightarrow> string \<Rightarrow> int \<Rightarrow> sys vars \<Rightarrow> sys vars ctl" where
  "env_builtin op cmd shell_name cmd_idx v =
     (let w = world v
      in case (case op of
                 SetVar n x \<Rightarrow> env_set (heap_ok w) n x (environ w)
               | UnsetVar n \<Rightarrow> env_unset (heap_ok w) n (environ w)) of
           Some t \<Rightarrow> Ret (v\<lparr>exit_status := 0, world := w\<lparr>environ := t\<rparr>\<rparr>)
         | None \<Rightarrow>
             (case print_env_error print_shell_error_spec cmd shell_name cmd_idx w of
                (st, w') \<Rightarrow> Ret (v\<lparr>exit_status := st, world := w'\<rparr>)))"

subsection \<open>Dispatcher\<close>

text \<open>
  Modelled from the spec: \<open>process_command\<close> (called in \<open>handle_command_exec\<close>, defined
  nowhere in the sources), for the built-ins \<open>exit\<close> and environment set and unset, and for
  external commands; the alias built-ins are left out. \<open>exit\<close> ends the process with its
  operand when one is given and numeric, with the last exit status otherwise. The
  specification does not name the environment built-ins: here they are \<open>setenv NAME VALUE\<close>
  and \<open>unsetenv NAME\<close>, and an invocation of another shape takes their error path. An
  external command ends with the code its program has in the world, or with 127 and a
  diagnostic when no program has its name.
\<close>

fun numeric :: "string \<Rightarrow> nat \<Rightarrow> nat option" where
  "numeric [] n = Some n"
| "numeric (x # xs) n =
     (if (48::nat) \<le> of_char x \<and> (of_char x :: nat) \<le> 57
      then numeric xs (10 * n + (of_char x - 48))
      else None)"

definition exit_operand :: "string list \<Rightarrow> nat option" where
  "exit_operand args = (case args of [] \<Rightarrow> None | a # _ \<Rightarrow> if a = [] then None else numeric a 0)"

definition process_command_spec :: "string list \<Rightarrow> string list \<Rightarrow> int \<Rightarrow> sys vars \<Rightarrow> sys vars ctl" where
  "process_command_spec cmd argv cmd_idx v =
     (case cmd of
        [] \<Rightarrow> Ret v
      | name # args \<Rightarrow>
          if name = ''exit''
          then (case exit_operand args of Some n \<Rightarrow> Exit (int n) | None \<Rightarrow> Exit (exit_status v))
          else if name = ''setenv''
          then (case args of
                  [n, x] \<Rightarrow> env_builtin (SetVar n x) cmd (hd argv) cmd_idx v
                | _ \<Rightarrow>
                    (case print_env_error print_shell_error_spec cmd (hd argv) cmd_idx (world v) of
                       (st, w') \<Rightarrow> Ret (v\<lparr>exit_status := st, world := w'\<rparr>)))
          else if name = ''unsetenv''
          then (case args of
                  [n] \<Rightarrow> env_builtin (UnsetVar n) cmd (hd argv) cmd_idx v
                | _ \<Rightarrow>
                    (case print_env_error print_shell_error_spec cmd (hd argv) cmd_idx (world v) of
                       (st, w') \<Rightarrow> Ret (v\<lparr>exit_status := st, world := w'\<rparr>)))
          else (case map_of (programs (world v)) name of
                  Some st \<Rightarrow> Ret (v\<lparr>exit_status := st\<rparr>)
                | None \<Rightarrow>
                    Ret (v\<lparr>exit_status := 127,
                           world := print_shell_error_spec (hd argv) cmd_idx cmd ''not found'' (world v)\<rparr>)))"

subsection \<open>Comment Filter and line reader\<close>

text \<open>
  Modelled from the spec: \<open>check_for_comments\<close> and \<open>handle_comments\<close> (called in
  \<open>read_and_handle_comments\<close>, defined nowhere in the sources). The flag is 1 when the
  line is entirely a comment (whitespace, then \<open>#\<close>); the filter removes the comment, from
  the first \<open>#\<close> on, and returns nothing to execute (\<open>NULL\<close>) when only whitespace is left.
  At the end of input there is no line and the flag is 0.
\<close>

definition check_for_comments_spec :: "string option \<Rightarrow> int" where
  "check_for_comments_spec cmd_line =
     (case cmd_line of
        None \<Rightarrow> 0
      | Some l \<Rightarrow>
          (case dropWhile (\<lambda>ch. ch \<in> set delims) l of
             [] \<Rightarrow> 0
           | x # xs \<Rightarrow> if x = CHR ''#'' then 1 else 0))"

definition handle_comments_spec :: "string option \<Rightarrow> string option" where
  "handle_comments_spec cmd_line =
     (case cmd_line of
        None \<Rightarrow> None
      | Some l \<Rightarrow>
          (let kept = takeWhile (\<lambda>ch. ch \<noteq> CHR ''#'') l
           in if blank kept then None else Some kept))"

text \<open>
  Modelled from the spec: \<open>read_command\<close> and the opening of the script (the line reader
  is defined nowhere in the sources). It yields the next line of the stream, or the end of
  input.
\<close>

definition fopen_spec :: "string \<Rightarrow> sys \<Rightarrow> FILE option" where
  "fopen_spec path w = (case map_of (files w) path of None \<Rightarrow> None | Some ls \<Rightarrow> Some (SCRIPT path))"

definition read_command_spec :: "FILE \<Rightarrow> int \<Rightarrow> sys \<Rightarrow> string option \<times> sys" where
  "read_command_spec f argc w =
     (case f of
        STDIN \<Rightarrow>
          (case stdin_lines w of
             [] \<Rightarrow> (None, w)
           | l # ls \<Rightarrow> (Some l, w\<lparr>stdin_lines := ls\<rparr>))
      | SCRIPT path \<Rightarrow>
          (case map_of (files w) path of
             None \<Rightarrow> (None, w)
           | Some ls \<Rightarrow>
               if script_pos w < length ls
               then (Some (ls ! script_pos w), w\<lparr>script_pos := Suc (script_pos w)\<rparr>)
               else (None, w)))"

subsection \<open>The instance\<close>

text \<open>
  The syntax condition of the instance reports the error and sets the status 2 (the
  specification asks for a non-zero status).
\<close>

definition syntax_condition :: "string list \<Rightarrow> int \<Rightarrow> sys vars \<Rightarrow> sys vars" where
  "syntax_condition argv cmd_idx v =
     v\<lparr>exit_status := 2,
       world := print_shell_error_spec (hd argv) cmd_idx [] ''Syntax error'' (world v)\<rparr>"

definition hsh :: "sys shell_h" where
  "hsh =
     \<lparr>fopen_r = fopen_spec,
      isatty_stdin = tty,
      read_command = read_command_spec,
      check_for_comments = check_for_comments_spec,
      handle_comments = handle_comments_spec,
      check_for_operator = check_for_operator_spec,
      handle_operators =
        handle_operators_spec tokenize_command_spec process_command_spec syntax_condition,
      tokenize_command = tokenize_command_spec,
      process_command = process_command_spec\<rparr>"

definition sys0 :: sys where
  "sys0 =
     \<lparr>stdin_lines = [], files = [], script_pos = 0, tty = False, environ = [],
      heap_ok = True, diagnostics = [],
      programs = [(''true'', 0), (''false'', 1), (''ls'', 0)]\<rparr>"

text \<open>
  A reader and a tokenizer that are out of memory: each returns \<open>NULL\<close> and changes
  nothing.
\<close>

definition read_command_nomem :: "FILE \<Rightarrow> int \<Rightarrow> sys \<Rightarrow> string option \<times> sys" where
  "read_command_nomem f argc w = (None, w)"

definition tokenize_command_nomem :: "string \<Rightarrow> string \<Rightarrow> string list option" where
  "tokenize_command_nomem s d = None"


text \<open>A line as the reader yields it, with its newline.\<close>

definition line :: "string \<Rightarrow> string" where
  "line s = s @ [CHR 0x0A]"

text \<open>The variables of \<open>main\<close> when the loop is entered, with the buffer allocated.\<close>

definition session :: "'w \<Rightarrow> 'w vars" where
  "session w = \<lparr>exit_status = 0, aliases = [], new_env = Some [], world = w\<rparr>"

section \<open>The session loop, one iteration at a time\<close>

lemmas hsh_simps = hsh_def sys0_def session_def read_and_handle_comments_def handle_exit_def
  handle_command_exec_def read_command_spec_def check_for_comments_spec_def handle_comments_spec_def
  fopen_spec_def delims_def blank_def tokenize_command_spec_def process_command_spec_def
  handle_operators_spec_def run_segment_def line_def read_command_nomem_def
  tokenize_command_nomem_def Let_def

lemma shell_loop_null:
  assumes "read_and_handle_comments c file argc (world v) = (None, ic, w', es)"
  shows "shell_loop c argc argv file idx v tr =
           Some (Exited (exit_status v)
                   (tr @ es @ snd (handle_exit c ic (exit_status v) file (new_env v) w')))"
  using assms by (subst shell_loop.simps) (simp add: handle_exit_def)

lemma shell_loop_step:
  assumes "read_and_handle_comments c file argc (world v) = (Some l, ic, w', es)"
      and "handle_command_exec c l argv (idx + 1) (v\<lparr>world := w'\<rparr>) = (Ret v1, es')"
  shows "shell_loop c argc argv file idx v tr = shell_loop c argc argv file (idx + 1) v1 (tr @ es @ es')"
  using assms by (subst shell_loop.simps) simp

lemma shell_loop_exit:
  assumes "read_and_handle_comments c file argc (world v) = (Some l, ic, w', es)"
      and "handle_command_exec c l argv (idx + 1) (v\<lparr>world := w'\<rparr>) = (Exit n, es')"
  shows "shell_loop c argc argv file idx v tr = Some (Exited n (tr @ es @ es'))"
  using assms by (subst shell_loop.simps) simp

text \<open>Every way out of the loop is a call of \<open>exit\<close>: the rule of the least fixed point.\<close>

lemma shell_loop_exits_only:
  assumes "shell_loop c argc argv fl idx v tr = Some r"
  shows "\<exists>n t. r = Exited n t"
proof (rule shell_loop.raw_induct
         [where P = "\<lambda>c argc argv fl idx v tr r. \<exists>n t. r = Exited n t", OF _ assms], goal_cases)
  case (1 sl c argc argv fl idx v tr r)
  then show ?case
    by (auto simp: handle_exit_def split: prod.splits option.splits ctl.splits if_splits)
qed

section \<open>The tokenizer and the chain\<close>

text \<open>
  \<open>split_tokens\<close> one character at a time: a delimiter is dropped, any other character
  starts or extends a token.
\<close>

lemma split_tokens_Nil [simp]: "split_tokens d [] = []"
  by (simp add: split_tokens.simps)

lemma split_tokens_delim [simp]: "x \<in> set d \<Longrightarrow> split_tokens d (x # s) = split_tokens d s"
  by (subst (1 2) split_tokens.simps) simp

lemma split_tokens_char:
  "x \<notin> set d \<Longrightarrow>
   split_tokens d (x # s) =
     (x # takeWhile (\<lambda>ch. ch \<notin> set d) s) # split_tokens d (dropWhile (\<lambda>ch. ch \<notin> set d) s)"
  by (subst split_tokens.simps) simp

lemma split_tokens_last_char [simp]: "x \<notin> set d \<Longrightarrow> split_tokens d [x] = [[x]]"
  by (simp add: split_tokens_char)

lemma split_tokens_char_delim [simp]:
  "x \<notin> set d \<Longrightarrow> y \<in> set d \<Longrightarrow> split_tokens d (x # y # s) = [x] # split_tokens d s"
  by (simp add: split_tokens_char)

lemma split_tokens_char_char:
  "x \<notin> set d \<Longrightarrow> y \<notin> set d \<Longrightarrow>
   split_tokens d (x # y # s) = (x # hd (split_tokens d (y # s))) # tl (split_tokens d (y # s))"
  by (simp add: split_tokens_char)

lemma split_tokens_char_ne [simp]: "x \<notin> set d \<Longrightarrow> split_tokens d (x # s) \<noteq> []"
  by (simp add: split_tokens_char)

lemma split_tokens_empty_iff: "split_tokens d s = [] \<longleftrightarrow> set s \<subseteq> set d"
proof (induction s)
  case Nil
  then show ?case by simp
next
  case (Cons x s)
  then show ?case by (cases "x \<in> set d") simp_all
qed

lemma split_tokens_token:
  "t \<in> set (split_tokens d s) \<Longrightarrow> t \<noteq> [] \<and> set t \<inter> set d = {}"
proof (induction s arbitrary: t rule: induct_list012)
  case 1
  then show ?case by simp
next
  case (2 x)
  then show ?case by (cases "x \<in> set d") auto
next
  case (3 x y zs)
  show ?case
  proof (cases "x \<in> set d")
    case True
    with 3 show ?thesis by simp
  next
    case False
    note x = this
    show ?thesis
    proof (cases "y \<in> set d")
      case True
      with x 3 show ?thesis by auto
    next
      case False
      then obtain u us where u: "split_tokens d (y # zs) = u # us"
        using split_tokens_char_ne [of y d zs] by (cases "split_tokens d (y # zs)") auto
      have "u \<noteq> [] \<and> set u \<inter> set d = {}" and "\<And>t. t \<in> set us \<Longrightarrow> t \<noteq> [] \<and> set t \<inter> set d = {}"
        using "3.IH"(2) u by simp_all
      moreover have "t = x # u \<or> t \<in> set us"
        using "3.prems" x False u by (simp add: split_tokens_char_char)
      ultimately show ?thesis using x by auto
    qed
  qed
qed

lemma split_tokens_cong:
  "(\<And>ch. ch \<in> set s \<Longrightarrow> ch \<in> set d \<longleftrightarrow> ch \<in> set d') \<Longrightarrow> split_tokens d s = split_tokens d' s"
proof (induction s rule: induct_list012)
  case 1
  then show ?case by simp
next
  case (2 x)
  then show ?case by (cases "x \<in> set d") auto
next
  case (3 x y zs)
  have IH2: "split_tokens d (y # zs) = split_tokens d' (y # zs)"
    using 3 by simp
  have IH1: "split_tokens d zs = split_tokens d' zs"
    using 3 by simp
  have x: "x \<in> set d \<longleftrightarrow> x \<in> set d'" and y: "y \<in> set d \<longleftrightarrow> y \<in> set d'"
    using "3.prems" by simp_all
  show ?case
  proof (cases "x \<in> set d")
    case True
    with x IH2 show ?thesis by simp
  next
    case False
    show ?thesis
    proof (cases "y \<in> set d")
      case True
      with False x y IH1 show ?thesis by simp
    next
      case yf: False
      with False x y IH2 show ?thesis by (simp add: split_tokens_char_char)
    qed
  qed
qed

lemma split_tokens_trailing_delim:
  "c \<in> set d \<Longrightarrow> split_tokens d (s @ [c]) = split_tokens d s"
proof (induction s rule: induct_list012)
  case 1
  then show ?case by simp
next
  case (2 x)
  then show ?case by (cases "x \<in> set d") auto
next
  case (3 x y zs)
  show ?case
  proof (cases "x \<in> set d")
    case True
    with 3 show ?thesis by simp
  next
    case False
    show ?thesis
    proof (cases "y \<in> set d")
      case True
      with False 3 show ?thesis by simp
    next
      case yf: False
      with False 3 show ?thesis by (simp add: split_tokens_char_char)
    qed
  qed
qed

lemma split_tokens_run:
  "t \<noteq> [] \<Longrightarrow> set t \<inter> set d = {} \<Longrightarrow> c \<in> set d \<Longrightarrow>
   split_tokens d (t @ c # s) = t # split_tokens d s"
proof (induction t rule: induct_list012)
  case 1 then show ?case by simp
next
  case (2 x) then show ?case by simp
next
  case (3 x y zs)
  then show ?case by (simp add: split_tokens_char_char)
qed

lemma tokenizer_refines_spec:
  assumes "CHR 0x0A \<notin> set (strip_newline seg)"
  shows "tokenize_command_spec seg delims = spec_tokenizer seg"
proof -
  have c: "split_tokens delims (strip_newline seg) = split_tokens [CHR '' '', CHR 0x09] (strip_newline seg)"
    using assms by (intro split_tokens_cong) (auto simp: delims_def)
  have "split_tokens delims seg = split_tokens delims (strip_newline seg)"
  proof (cases "seg \<noteq> [] \<and> last seg = CHR 0x0A")
    case True
    then have "seg = butlast seg @ [CHR 0x0A]" by (metis append_butlast_last_id)
    then have "split_tokens delims seg = split_tokens delims (butlast seg)"
      using split_tokens_trailing_delim [of "CHR 0x0A" delims "butlast seg"]
      by (simp add: delims_def)
    with True show ?thesis by (simp add: strip_newline_def)
  next
    case False
    then show ?thesis by (auto simp add: strip_newline_def)
  qed
  with c show ?thesis by (simp add: tokenize_command_spec_def spec_tokenizer_def)
qed

lemma and_then_Ret [simp]: "and_then (Ret x, es) k = (fst (k x), es @ snd (k x))"
  by (simp add: and_then_def split: prod.splits)

lemma and_then_Exit [simp]: "and_then (Exit n, es) k = (Exit n, es)"
  by (simp add: and_then_def)

lemma and_then_assoc: "and_then (and_then r k) k' = and_then r (\<lambda>x. and_then (k x) k')"
  by (cases r; cases "fst r") (auto simp: and_then_def split: prod.splits ctl.splits)

lemma run_chain_Cons:
  "run_chain tk dp argv i ((op, seg) # rest) v =
     (if gate op (exit_status v)
      then and_then (run_segment tk dp argv i seg v) (run_chain tk dp argv i rest)
      else run_chain tk dp argv i rest v)"
  by (simp add: and_then_def split: prod.splits ctl.splits)

lemma run_chain_append:
  "run_chain tk dp argv i (xs @ ys) v = and_then (run_chain tk dp argv i xs v) (run_chain tk dp argv i ys)"
proof (induction xs arbitrary: v)
  case Nil
  then show ?case by simp
next
  case (Cons x xs)
  obtain op seg where x: "x = (op, seg)" by (cases x)
  have IH: "run_chain tk dp argv i (xs @ ys)
              = (\<lambda>v. and_then (run_chain tk dp argv i xs v) (run_chain tk dp argv i ys))"
    by (rule ext) (rule Cons.IH)
  show ?case
    unfolding x append_Cons run_chain_Cons
    by (simp add: IH and_then_assoc)
qed

lemma ttd_start:
  "tokenize_then_dispatch tk es \<Longrightarrow> es = [] \<or> (\<exists>seg es'. es = TokenizeCommand seg # es')"
  by (cases es) (auto split: event.splits)

lemma ttd_skip:
  "tk seg delims = None \<Longrightarrow> tokenize_then_dispatch tk es \<Longrightarrow> tokenize_then_dispatch tk (TokenizeCommand seg # es)"
  using ttd_start [of tk es] by auto

lemma ttd_run:
  "tk seg delims = Some cmd \<Longrightarrow> tokenize_then_dispatch tk es \<Longrightarrow>
   tokenize_then_dispatch tk (TokenizeCommand seg # ProcessCommand cmd # es)"
  by simp

lemma ttd_dispatched:
  "tokenize_then_dispatch tk es \<Longrightarrow> ProcessCommand cmd \<in> set es \<Longrightarrow> \<exists>seg. tk seg delims = Some cmd"
proof (induction es rule: length_induct)
  case (1 es)
  show ?case
  proof (cases es)
    case Nil
    with 1 show ?thesis by simp
  next
    case (Cons e es')
    with "1.prems"(1) obtain seg where e: "e = TokenizeCommand seg"
      by (auto split: event.splits)
    show ?thesis
    proof (cases "\<exists>c' es''. es' = ProcessCommand c' # es''")
      case True
      then obtain c' es'' where es': "es' = ProcessCommand c' # es''" by blast
      with "1.prems" Cons e have a: "tk seg delims = Some c'" and b: "tokenize_then_dispatch tk es''"
        and c: "cmd = c' \<or> ProcessCommand cmd \<in> set es''"
        by auto
      from c show ?thesis
      proof
        assume "cmd = c'" with a show ?thesis by blast
      next
        assume m: "ProcessCommand cmd \<in> set es''"
        have "length es'' < length es" using Cons es' by simp
        from "1.IH" [rule_format, OF this b m] show ?thesis .
      qed
    next
      case False
      from "1.prems"(1) False have b: "tokenize_then_dispatch tk es'"
        unfolding Cons e by (cases es'; cases "hd es'") simp_all
      from "1.prems"(2) have c: "ProcessCommand cmd \<in> set es'"
        unfolding Cons e by simp
      have "length es' < length es" using Cons by simp
      from "1.IH" [rule_format, OF this b c] show ?thesis .
    qed
  qed
qed

lemma run_chain_order: "tokenize_then_dispatch tk (snd (run_chain tk dp argv i segs v))"
proof (induction segs arbitrary: v)
  case Nil
  then show ?case by simp
next
  case (Cons x segs)
  obtain op seg where x: "x = (op, seg)" by (cases x)
  show ?case
  proof (cases "gate op (exit_status v)")
    case False
    with Cons x show ?thesis by simp
  next
    case True
    show ?thesis
    proof (cases "tk seg delims")
      case None
      with True x ttd_skip [OF None Cons.IH [of v]] show ?thesis
        by (simp add: run_chain_Cons run_segment_def del: run_chain.simps)
    next
      case (Some cmd)
      show ?thesis
      proof (cases "dp cmd argv i v")
        case (Exit n)
        with True x Some show ?thesis
          by (simp add: run_chain_Cons run_segment_def del: run_chain.simps)
      next
        case (Ret v')
        with True x Some Cons.IH [of v'] show ?thesis
          by (simp add: run_chain_Cons run_segment_def del: run_chain.simps)
      qed
    qed
  qed
qed

lemma tokenize_command_spec_Some:
  assumes "tokenize_command_spec seg d = Some ts"
  shows "ts \<noteq> [] \<and> (\<forall>t\<in>set ts. t \<noteq> [] \<and> set t \<inter> set d = {})"
proof -
  from assms have ts: "ts = split_tokens d seg" and ne: "ts \<noteq> []"
    by (auto simp: tokenize_command_spec_def split: list.splits)
  from ts split_tokens_token [of _ d seg] ne show ?thesis by blast
qed

lemma tokenize_command_spec_None: "tokenize_command_spec seg delims = None \<longleftrightarrow> blank seg"
  using split_tokens_empty_iff [of delims seg]
  by (auto simp: tokenize_command_spec_def blank_def list_all_iff split: list.splits)

lemma handle_command_exec_dispatched:
  assumes "handle_operators c = handle_operators_spec (tokenize_command c) (process_command c) syn"
      and "ProcessCommand cmd \<in> set (snd (handle_command_exec c l argv i v))"
  shows "\<exists>seg. tokenize_command c seg delims = Some cmd"
proof (cases "check_for_operator c l")
  case None
  with assms(2) show ?thesis
    by (auto simp: handle_command_exec_def split: option.splits)
next
  case (Some op)
  with assms have "ProcessCommand cmd \<in> set (snd (run_chain (tokenize_command c) (process_command c) argv i (split_line NONE [] l) v))"
    by (auto simp: handle_command_exec_def handle_operators_spec_def Let_def split: prod.splits if_splits)
  with run_chain_order [of "tokenize_command c" "process_command c" argv i "split_line NONE [] l" v]
  show ?thesis by (rule ttd_dispatched)
qed

lemma split_tokens_single:
  "t \<noteq> [] \<Longrightarrow> set t \<inter> set d = {} \<Longrightarrow> split_tokens d t = [t]"
proof (induction t rule: induct_list012)
  case 1 then show ?case by simp
next
  case (2 x) then show ?case by simp
next
  case (3 x y zs)
  then show ?case by (simp add: split_tokens_char_char)
qed

lemma split_line_plain:
  "CHR '';'' \<notin> set a \<Longrightarrow> CHR ''&'' \<notin> set a \<Longrightarrow> CHR ''|'' \<notin> set a \<Longrightarrow>
   split_line op acc (a @ rest) = split_line op (rev a @ acc) rest"
  by (induction a arbitrary: acc) auto

lemma split_line_operators:
  assumes "CHR '';'' \<notin> set a" "CHR ''&'' \<notin> set a" "CHR ''|'' \<notin> set a"
  shows "split_line op [] (a @ '';'' @ rest) = (op, a) # split_line SEQ [] rest"
    and "split_line op [] (a @ ''&&'' @ rest) = (op, a) # split_line AND [] rest"
    and "split_line op [] (a @ ''||'' @ rest) = (op, a) # split_line OR [] rest"
  using assms by (simp_all add: split_line_plain)

lemma run_chain_after_dispatch:
  assumes "gate op0 (exit_status v)" and "tk seg0 delims = Some cmd" and "dp cmd argv i v = Ret v1"
  shows "run_chain tk dp argv i ((op0, seg0) # rest) v =
           (fst (run_chain tk dp argv i rest v1),
            TokenizeCommand seg0 # ProcessCommand cmd # snd (run_chain tk dp argv i rest v1))"
  using assms by (simp add: run_chain_Cons run_segment_def del: run_chain.simps)

lemma read_and_handle_comments_eq:
  assumes "read_command c (case file of Some f \<Rightarrow> f | None \<Rightarrow> STDIN) argc w = (raw, w')"
  shows "read_and_handle_comments c file argc w =
           ((if check_for_comments c raw = 1 then handle_comments c raw else raw),
            check_for_comments c raw, w',
            ReadCommand # CheckForComments # (if check_for_comments c raw = 1 then [HandleComments] else []))"
  using assms by (simp add: read_and_handle_comments_def split: option.splits)

lemma env_builtin_failure:
  assumes "\<not> heap_ok (world v)"
  shows "env_builtin op cmd shell_name i v =
           Ret (v\<lparr>exit_status := 2,
                  world := (world v)\<lparr>diagnostics := diagnostics (world v) @ [(shell_name, i, cmd, env_err_msg)]\<rparr>\<rparr>)"
  using assms
  by (cases op)
     (simp_all add: env_builtin_def env_set_def env_unset_def print_env_error_def
        print_shell_error_spec_def Let_def)

section \<open>The claims\<close>

text \<open>
  C3: started with a script argument that cannot be opened, \<open>main\<close> reports the file-open
  error, frees the buffer and calls \<open>exit(2)\<close>; the loop is not entered, so no line is read
  (the log holds no \<open>ReadCommand\<close>).
\<close>

theorem unopenable_script_exits_2:
  assumes "1 < length argv" and "fopen_r c (argv ! 1) w = None"
  shows "main c argv buf w = Some (Exited 2 [PrintFileError (argv ! 0) 0 (argv ! 1), Free])"
  using assms by (simp add: main_def Let_def)

theorem unopenable_script_exits_2_witness:
  "1 < length [''hsh'', ''nofile''] \<and> fopen_r hsh ([''hsh'', ''nofile''] ! 1) sys0 = None
   \<and> main hsh [''hsh'', ''nofile''] (Some []) sys0
       = Some (Exited 2 [PrintFileError ''hsh'' 0 ''nofile'', Free])"
  using unopenable_script_exits_2 [of "[''hsh'', ''nofile'']" hsh sys0 "Some []"]
  by (simp add: hsh_simps)




text \<open>
  C9: whenever \<open>read_and_handle_comments\<close> returns no line, whatever the flag,
  \<open>handle_exit\<close> ends the process with \<open>exit(*exit_status)\<close>; and neither the loop nor
  \<open>main\<close> ever returns: the statements after the loop are never reached.
\<close>

theorem null_line_terminates_process:
  "(read_and_handle_comments c file argc (world v) = (None, ic, w', es) \<longrightarrow>
      fst (handle_exit c ic (exit_status v) file (new_env v) w') = Exit (exit_status v)
      \<and> shell_loop c argc argv file idx v tr =
          Some (Exited (exit_status v)
                  (tr @ es @ snd (handle_exit c ic (exit_status v) file (new_env v) w'))))
   \<and> shell_loop c argc argv file idx v tr \<noteq> Some (Returned n t)
   \<and> main c argv buf w \<noteq> Some (Returned n t)"
proof (intro conjI impI)
  assume "read_and_handle_comments c file argc (world v) = (None, ic, w', es)"
  then show "shell_loop c argc argv file idx v tr =
          Some (Exited (exit_status v)
                  (tr @ es @ snd (handle_exit c ic (exit_status v) file (new_env v) w')))"
    by (rule shell_loop_null)
next
  show "fst (handle_exit c ic (exit_status v) file (new_env v) w') = Exit (exit_status v)"
    by (simp add: handle_exit_def)
next
  show "shell_loop c argc argv file idx v tr \<noteq> Some (Returned n t)"
    using shell_loop_exits_only [where r = "Returned n t"] by fastforce
next
  show "main c argv buf w \<noteq> Some (Returned n t)"
    using shell_loop_exits_only [where r = "Returned n t"]
    by (auto simp: main_def Let_def split: option.splits if_splits)
qed

theorem null_line_terminates_process_witness:
  "read_and_handle_comments hsh None 1 (sys0\<lparr>stdin_lines := [''# note'', ''ls'']\<rparr>)
     = (None, 1, sys0\<lparr>stdin_lines := [''ls'']\<rparr>, [ReadCommand, CheckForComments, HandleComments])
   \<and> shell_loop hsh 1 [''hsh''] None 0 (session (sys0\<lparr>stdin_lines := [''# note'', ''ls'']\<rparr>)) []
     = Some (Exited 0 [ReadCommand, CheckForComments, HandleComments, Free])"
proof -
  have h: "read_and_handle_comments hsh None 1
             (world (session (sys0\<lparr>stdin_lines := [''# note'', ''ls'']\<rparr>)))
     = (None, 1, sys0\<lparr>stdin_lines := [''ls'']\<rparr>, [ReadCommand, CheckForComments, HandleComments])"
    by (simp add: hsh_simps)
  from null_line_terminates_process
         [of hsh None 1 "session (sys0\<lparr>stdin_lines := [''# note'', ''ls'']\<rparr>)"
             1 "sys0\<lparr>stdin_lines := [''ls'']\<rparr>" "[ReadCommand, CheckForComments, HandleComments]"
             "[''hsh'']" 0 "[]"] h
  show ?thesis by (simp add: hsh_simps)
qed


text \<open>
  C1, as the code has it: a comment-only line, for which the Comment Filter returns nothing
  to execute with the flag set, takes the \<open>NULL\<close> branch of \<open>main\<close>, and \<open>handle_exit\<close>
  ends the process. The Dispatcher is not invoked, but the next line (\<open>ls\<close>) is never read.
\<close>

theorem comment_only_line_ends_session:
  "main hsh [''hsh''] (Some []) (sys0\<lparr>stdin_lines := [line ''# note'', line ''ls'']\<rparr>)
     = Some (Exited 0 [ReadCommand, CheckForComments, HandleComments, Free])"
  by (simp add: hsh_simps main_def shell_loop.simps)

text \<open>
  C8, as stated, fails. When the \<open>malloc\<close> of \<open>new_env\<close> fails, the buffer is \<open>NULL\<close>, nothing
  checks it, and the command line \<open>ls\<close> is dispatched, not skipped. When the reader returns
  \<open>NULL\<close> for want of memory, the process exits through \<open>handle_exit\<close> and the pending line is
  never read.
\<close>

theorem alloc_failure_counterexample:
  "main hsh [''hsh''] None (sys0\<lparr>stdin_lines := [line ''ls'']\<rparr>)
     = Some (Exited 0 [ReadCommand, CheckForComments, CheckForOperator (line ''ls''),
                       TokenizeCommand (line ''ls''), ProcessCommand [''ls''],
                       ReadCommand, CheckForComments])
   \<and> main (hsh\<lparr>read_command := read_command_nomem\<rparr>) [''hsh''] (Some [])
         (sys0\<lparr>stdin_lines := [line ''ls'']\<rparr>)
     = Some (Exited 0 [ReadCommand, CheckForComments, Free])"
  by (simp add: hsh_simps main_def shell_loop.simps split_tokens.simps)

text \<open>
  C8, amended: when the tokenizer returns no vector for a line without operator (as it
  does when its allocation fails), \<open>handle_command_exec\<close> returns without calling
  \<open>process_command\<close>, the variables of the session are as they were, and the loop goes on
  to the next line.
\<close>

theorem tokenizer_failure_skips_line:
  assumes "read_and_handle_comments c file argc (world v) = (Some l, ic, w', es)"
      and "check_for_operator c l = None"
      and "tokenize_command c l delims = None"
  shows "handle_command_exec c l argv (idx + 1) (v\<lparr>world := w'\<rparr>)
           = (Ret (v\<lparr>world := w'\<rparr>), [CheckForOperator l, TokenizeCommand l])
         \<and> shell_loop c argc argv file idx v tr
           = shell_loop c argc argv file (idx + 1) (v\<lparr>world := w'\<rparr>)
               (tr @ es @ [CheckForOperator l, TokenizeCommand l])"
proof -
  have h: "handle_command_exec c l argv (idx + 1) (v\<lparr>world := w'\<rparr>)
           = (Ret (v\<lparr>world := w'\<rparr>), [CheckForOperator l, TokenizeCommand l])"
    using assms(2,3) by (simp add: handle_command_exec_def)
  from shell_loop_step [OF assms(1) h] h show ?thesis by simp
qed

theorem tokenizer_failure_skips_line_witness:
  "read_and_handle_comments (hsh\<lparr>tokenize_command := tokenize_command_nomem\<rparr>) None 1
      (world (session (sys0\<lparr>stdin_lines := [line ''ls'']\<rparr>)))
     = (Some (line ''ls''), 0, sys0, [ReadCommand, CheckForComments])
   \<and> check_for_operator (hsh\<lparr>tokenize_command := tokenize_command_nomem\<rparr>) (line ''ls'') = None
   \<and> tokenize_command (hsh\<lparr>tokenize_command := tokenize_command_nomem\<rparr>) (line ''ls'') delims = None
   \<and> shell_loop (hsh\<lparr>tokenize_command := tokenize_command_nomem\<rparr>) 1 [''hsh''] None 0
        (session (sys0\<lparr>stdin_lines := [line ''ls'']\<rparr>)) []
     = Some (Exited 0 [ReadCommand, CheckForComments, CheckForOperator (line ''ls''),
                       TokenizeCommand (line ''ls''), ReadCommand, CheckForComments, Free])"
proof -
  have h: "read_and_handle_comments (hsh\<lparr>tokenize_command := tokenize_command_nomem\<rparr>) None 1
      (world (session (sys0\<lparr>stdin_lines := [line ''ls'']\<rparr>)))
     = (Some (line ''ls''), 0, sys0, [ReadCommand, CheckForComments])"
    by (simp add: hsh_simps)
  from tokenizer_failure_skips_line [OF h, of "[''hsh'']" 0 "[]"]
  show ?thesis
    by (simp add: hsh_simps shell_loop.simps)
qed

text \<open>
  C7: the Tokenizer, called with the delimiters space, tab and newline, does what the
  specification says on a segment whose only newline is the trailing one: it strips that
  newline and splits at runs of spaces and tabs. A segment of whitespace only (or empty)
  gives no vector, every vector it gives is non-empty with non-empty tokens free of
  delimiters, and every vector that \<open>handle_command_exec\<close> passes to the Dispatcher is one
  the Tokenizer returned, so it is never empty.
\<close>

theorem tokenizer_contract:
  "(CHR 0x0A \<notin> set (strip_newline seg) \<longrightarrow> tokenize_command_spec seg delims = spec_tokenizer seg)
   \<and> (tokenize_command_spec seg delims = None \<longleftrightarrow> blank seg)
   \<and> (tokenize_command_spec seg delims = Some ts \<longrightarrow>
        ts \<noteq> [] \<and> (\<forall>t\<in>set ts. t \<noteq> [] \<and> set t \<inter> set delims = {}))
   \<and> (t \<noteq> [] \<longrightarrow> set t \<inter> set delims = {} \<longrightarrow> x \<in> set delims \<longrightarrow>
        split_tokens delims (t @ x # s) = t # split_tokens delims s
        \<and> split_tokens delims (x # s) = split_tokens delims s
        \<and> split_tokens delims t = [t])
   \<and> (tokenize_command c = tokenize_command_spec \<longrightarrow>
        handle_operators c = handle_operators_spec (tokenize_command c) (process_command c) syn \<longrightarrow>
        ProcessCommand cmd \<in> set (snd (handle_command_exec c l argv i v)) \<longrightarrow> cmd \<noteq> [])"
proof (intro conjI impI)
  assume "CHR 0x0A \<notin> set (strip_newline seg)"
  then show "tokenize_command_spec seg delims = spec_tokenizer seg"
    by (rule tokenizer_refines_spec)
next
  show "tokenize_command_spec seg delims = None \<longleftrightarrow> blank seg"
    by (rule tokenize_command_spec_None)
next
  assume "tokenize_command_spec seg delims = Some ts"
  from tokenize_command_spec_Some [OF this]
  show "ts \<noteq> []" and "\<forall>t\<in>set ts. t \<noteq> [] \<and> set t \<inter> set delims = {}" by simp_all
next
  assume "t \<noteq> []" "set t \<inter> set delims = {}" "x \<in> set delims"
  then show "split_tokens delims (t @ x # s) = t # split_tokens delims s"
    and "split_tokens delims (x # s) = split_tokens delims s"
    and "split_tokens delims t = [t]"
    by (simp_all add: split_tokens_run split_tokens_single)
next
  assume tk: "tokenize_command c = tokenize_command_spec"
    and "handle_operators c = handle_operators_spec (tokenize_command c) (process_command c) syn"
    and "ProcessCommand cmd \<in> set (snd (handle_command_exec c l argv i v))"
  from handle_command_exec_dispatched [OF this(2,3)]
  obtain sg where "tokenize_command c sg delims = Some cmd" by blast
  with tk tokenize_command_spec_Some [of sg delims cmd] show "cmd \<noteq> []" by simp
qed

theorem tokenizer_contract_witness:
  "CHR 0x0A \<notin> set (strip_newline (line ''  ls   -l /tmp''))
   \<and> tokenize_command_spec (line ''  ls   -l /tmp'') delims = spec_tokenizer (line ''  ls   -l /tmp'')
   \<and> tokenize_command_spec (line ''  ls   -l /tmp'') delims = Some [''ls'', ''-l'', ''/tmp'']
   \<and> [''ls'', ''-l'', ''/tmp''] \<noteq> []
   \<and> ''ls'' \<noteq> [] \<and> set ''ls'' \<inter> set delims = {} \<and> CHR '' '' \<in> set delims
   \<and> tokenize_command_spec (line ''  '') delims = None
   \<and> split_tokens delims (''ls'' @ CHR '' '' # '' -l'') = ''ls'' # split_tokens delims '' -l''
   \<and> tokenize_command hsh = tokenize_command_spec
   \<and> handle_operators hsh
       = handle_operators_spec (tokenize_command hsh) (process_command hsh) syntax_condition
   \<and> ProcessCommand [''ls'', ''-l'']
       \<in> set (snd (handle_command_exec hsh (line ''ls -l'') [''hsh''] 1 (session sys0)))"
proof -
  have a: "tokenize_command_spec (line ''  ls   -l /tmp'') delims = Some [''ls'', ''-l'', ''/tmp'']"
    by (simp add: tokenize_command_spec_def line_def delims_def split_tokens.simps)
  have b: "tokenize_command_spec (line ''  '') delims = None"
    by (simp add: tokenize_command_spec_def line_def delims_def split_tokens.simps)
  have c: "ProcessCommand [''ls'', ''-l'']
       \<in> set (snd (handle_command_exec hsh (line ''ls -l'') [''hsh''] 1 (session sys0)))"
    by (simp add: hsh_simps split_tokens.simps)
  have d: "handle_operators hsh
       = handle_operators_spec (tokenize_command hsh) (process_command hsh) syntax_condition"
    by (simp add: hsh_def)
  from tokenizer_contract [of "line ''  ls   -l /tmp''" "[''ls'', ''-l'', ''/tmp'']" "''ls''" "CHR '' ''"
         "'' -l''" hsh syntax_condition "[''ls'', ''-l'']" "line ''ls -l''" "[''hsh'']" 1 "session sys0"]
    a b c d
  show ?thesis
    by (simp add: hsh_def line_def strip_newline_def delims_def)
qed

text \<open>
  C2: in a chain, a segment after \<open>;\<close> always runs, a segment after \<open>&&\<close> runs exactly
  when the status is 0, a segment after \<open>||\<close> exactly when it is not 0; and the status the
  gate reads is the one the variables hold after the segments before it have run, which for
  a segment that was dispatched is the status the Dispatcher returned. The last part says
  how a line is cut: the text before an operator is a segment, the text after it is tagged
  with that operator.
\<close>

theorem operator_gates:
  "run_chain tk dp argv i (pre @ (op, seg) # post) v =
     and_then (run_chain tk dp argv i pre v)
       (\<lambda>v'. if gate op (exit_status v')
             then and_then (run_segment tk dp argv i seg v') (run_chain tk dp argv i post)
             else run_chain tk dp argv i post v')
   \<and> gate SEQ s \<and> (gate AND s \<longleftrightarrow> s = 0) \<and> (gate OR s \<longleftrightarrow> s \<noteq> 0)
   \<and> (gate op0 (exit_status v) \<longrightarrow> tk seg0 delims = Some cmd \<longrightarrow> dp cmd argv i v = Ret v1 \<longrightarrow>
        run_chain tk dp argv i ((op0, seg0) # (op, seg) # post) v =
          (if gate op (exit_status v1)
           then and_then (Ret v1, [TokenizeCommand seg0, ProcessCommand cmd])
                  (\<lambda>v'. and_then (run_segment tk dp argv i seg v') (run_chain tk dp argv i post))
           else and_then (Ret v1, [TokenizeCommand seg0, ProcessCommand cmd])
                  (run_chain tk dp argv i post)))
   \<and> (CHR '';'' \<notin> set a \<longrightarrow> CHR ''&'' \<notin> set a \<longrightarrow> CHR ''|'' \<notin> set a \<longrightarrow>
        split_line op0 [] (a @ '';'' @ b) = (op0, a) # split_line SEQ [] b
        \<and> split_line op0 [] (a @ ''&&'' @ b) = (op0, a) # split_line AND [] b
        \<and> split_line op0 [] (a @ ''||'' @ b) = (op0, a) # split_line OR [] b)"
proof (intro conjI impI)
  have "run_chain tk dp argv i (pre @ (op, seg) # post) v
          = and_then (run_chain tk dp argv i pre v) (run_chain tk dp argv i ((op, seg) # post))"
    by (rule run_chain_append)
  also have "run_chain tk dp argv i ((op, seg) # post)
          = (\<lambda>v'. if gate op (exit_status v')
             then and_then (run_segment tk dp argv i seg v') (run_chain tk dp argv i post)
             else run_chain tk dp argv i post v')"
    by (rule ext) (rule run_chain_Cons)
  finally show "run_chain tk dp argv i (pre @ (op, seg) # post) v =
     and_then (run_chain tk dp argv i pre v)
       (\<lambda>v'. if gate op (exit_status v')
             then and_then (run_segment tk dp argv i seg v') (run_chain tk dp argv i post)
             else run_chain tk dp argv i post v')" .
next
  show "gate SEQ s" by simp
next
  show "gate AND s \<longleftrightarrow> s = 0" by simp
next
  show "gate OR s \<longleftrightarrow> s \<noteq> 0" by simp
next
  assume "gate op0 (exit_status v)" "tk seg0 delims = Some cmd" "dp cmd argv i v = Ret v1"
  then show "run_chain tk dp argv i ((op0, seg0) # (op, seg) # post) v =
          (if gate op (exit_status v1)
           then and_then (Ret v1, [TokenizeCommand seg0, ProcessCommand cmd])
                  (\<lambda>v'. and_then (run_segment tk dp argv i seg v') (run_chain tk dp argv i post))
           else and_then (Ret v1, [TokenizeCommand seg0, ProcessCommand cmd])
                  (run_chain tk dp argv i post))"
    by (simp add: run_chain_Cons run_segment_def del: run_chain.simps)
next
  assume a: "CHR '';'' \<notin> set a" "CHR ''&'' \<notin> set a" "CHR ''|'' \<notin> set a"
  from split_line_operators [OF a]
  show "split_line op0 [] (a @ '';'' @ b) = (op0, a) # split_line SEQ [] b"
    and "split_line op0 [] (a @ ''&&'' @ b) = (op0, a) # split_line AND [] b"
    and "split_line op0 [] (a @ ''||'' @ b) = (op0, a) # split_line OR [] b"
    by simp_all
qed


theorem operator_gates_witness:
  "gate NONE (exit_status (session sys0))
   \<and> tokenize_command_spec ''false '' delims = Some [''false'']
   \<and> process_command_spec [''false''] [''hsh''] 1 (session sys0) = Ret (session sys0\<lparr>exit_status := 1\<rparr>)
   \<and> CHR '';'' \<notin> set ''false '' \<and> CHR ''&'' \<notin> set ''false '' \<and> CHR ''|'' \<notin> set ''false ''
   \<and> split_line NONE [] (''false '' @ ''&&'' @ '' ls ; true || ls'')
       = [(NONE, ''false ''), (AND, '' ls ''), (SEQ, '' true ''), (OR, '' ls'')]
   \<and> run_chain tokenize_command_spec process_command_spec [''hsh''] 1
        ([(NONE, ''false '')] @ (AND, '' ls '') # [(SEQ, '' true ''), (OR, '' ls'')]) (session sys0)
       = (Ret (session sys0), [TokenizeCommand ''false '', ProcessCommand [''false''],
                               TokenizeCommand '' true '', ProcessCommand [''true'']])"
proof -
  have a: "tokenize_command_spec ''false '' delims = Some [''false'']"
    by (simp add: tokenize_command_spec_def delims_def split_tokens.simps)
  have b: "process_command_spec [''false''] [''hsh''] 1 (session sys0) = Ret (session sys0\<lparr>exit_status := 1\<rparr>)"
    by (simp add: process_command_spec_def session_def sys0_def)
  from operator_gates [of tokenize_command_spec process_command_spec "[''hsh'']" 1
         "[(NONE, ''false '')]" AND "'' ls ''" "[(SEQ, '' true ''), (OR, '' ls'')]" "session sys0" 0
         NONE "''false ''" "[''false'']" "session sys0\<lparr>exit_status := 1\<rparr>" "''false ''" "'' ls ; true || ls''"]
    a b
  show ?thesis
    by (simp add: hsh_simps split_tokens.simps and_then_def)
qed

text \<open>
  C6: one iteration of the loop applies the stages in a fixed order: the reader and the
  Comment Filter, then the operator detection, then either the Tokenizer and the Dispatcher
  on the whole line or the Operator Splitter, and the variables that the Dispatcher (or the
  Splitter) returns, the exit status among them, are the ones the next iteration starts
  from. Inside a chain each selected segment is tokenized and then dispatched, and the rest
  of the chain is run on the variables that dispatch returned.
\<close>

theorem pipeline_order:
  assumes "read_command c (case file of Some f \<Rightarrow> f | None \<Rightarrow> STDIN) argc (world v) = (raw, w')"
      and "(if check_for_comments c raw = 1 then handle_comments c raw else raw) = Some l"
  shows "(check_for_operator c l = None \<longrightarrow> tokenize_command c l delims = Some cmd \<longrightarrow>
            process_command c cmd argv (idx + 1) (v\<lparr>world := w'\<rparr>) = Ret v1 \<longrightarrow>
            shell_loop c argc argv file idx v tr =
              shell_loop c argc argv file (idx + 1) v1
                (tr @ ReadCommand # CheckForComments #
                   (if check_for_comments c raw = 1 then [HandleComments] else []) @
                   [CheckForOperator l, TokenizeCommand l, ProcessCommand cmd]))
       \<and> (check_for_operator c l = Some op \<longrightarrow>
            handle_operators c argv l op (idx + 1) (v\<lparr>world := w'\<rparr>) = (Ret v1, es) \<longrightarrow>
            shell_loop c argc argv file idx v tr =
              shell_loop c argc argv file (idx + 1) v1
                (tr @ ReadCommand # CheckForComments #
                   (if check_for_comments c raw = 1 then [HandleComments] else []) @
                   CheckForOperator l # HandleOperators l op # es))
       \<and> tokenize_then_dispatch tk (snd (run_chain tk dp argv i segs v0))
       \<and> (gate op0 (exit_status v0) \<longrightarrow> tk seg delims = Some cmd0 \<longrightarrow> dp cmd0 argv i v0 = Ret v2 \<longrightarrow>
            run_chain tk dp argv i ((op0, seg) # rest) v0 =
              (fst (run_chain tk dp argv i rest v2),
               TokenizeCommand seg # ProcessCommand cmd0 # snd (run_chain tk dp argv i rest v2)))"
proof -
  let ?es = "ReadCommand # CheckForComments # (if check_for_comments c raw = 1 then [HandleComments] else [])"
  have rd: "read_and_handle_comments c file argc (world v) = (Some l, check_for_comments c raw, w', ?es)"
    using read_and_handle_comments_eq [OF assms(1)] assms(2) by simp
  have one: "shell_loop c argc argv file idx v tr =
              shell_loop c argc argv file (idx + 1) v1
                (tr @ ?es @ [CheckForOperator l, TokenizeCommand l, ProcessCommand cmd])"
    if "check_for_operator c l = None" "tokenize_command c l delims = Some cmd"
       "process_command c cmd argv (idx + 1) (v\<lparr>world := w'\<rparr>) = Ret v1"
  proof -
    have "handle_command_exec c l argv (idx + 1) (v\<lparr>world := w'\<rparr>)
            = (Ret v1, [CheckForOperator l, TokenizeCommand l, ProcessCommand cmd])"
      using that by (simp add: handle_command_exec_def)
    from shell_loop_step [OF rd this] show ?thesis .
  qed
  have two: "shell_loop c argc argv file idx v tr =
              shell_loop c argc argv file (idx + 1) v1
                (tr @ ?es @ CheckForOperator l # HandleOperators l op # es)"
    if "check_for_operator c l = Some op"
       "handle_operators c argv l op (idx + 1) (v\<lparr>world := w'\<rparr>) = (Ret v1, es)"
  proof -
    have "handle_command_exec c l argv (idx + 1) (v\<lparr>world := w'\<rparr>)
            = (Ret v1, CheckForOperator l # HandleOperators l op # es)"
      using that by (simp add: handle_command_exec_def)
    from shell_loop_step [OF rd this] show ?thesis .
  qed
  have three: "tokenize_then_dispatch tk (snd (run_chain tk dp argv i segs v0))"
    by (rule run_chain_order)
  have four: "run_chain tk dp argv i ((op0, seg) # rest) v0 =
              (fst (run_chain tk dp argv i rest v2),
               TokenizeCommand seg # ProcessCommand cmd0 # snd (run_chain tk dp argv i rest v2))"
    if "gate op0 (exit_status v0)" "tk seg delims = Some cmd0" "dp cmd0 argv i v0 = Ret v2"
    using that by (rule run_chain_after_dispatch)
  from one two three four show ?thesis by simp
qed

theorem pipeline_order_witness:
  "read_command hsh (case None of Some f \<Rightarrow> f | None \<Rightarrow> STDIN) 1
       (world (session (sys0\<lparr>stdin_lines := [line ''false'']\<rparr>))) = (Some (line ''false''), sys0)
   \<and> (if check_for_comments hsh (Some (line ''false'')) = 1
       then handle_comments hsh (Some (line ''false'')) else Some (line ''false'')) = Some (line ''false'')
   \<and> check_for_operator hsh (line ''false'') = None
   \<and> tokenize_command hsh (line ''false'') delims = Some [''false'']
   \<and> process_command hsh [''false''] [''hsh''] (0 + 1) (session (sys0\<lparr>stdin_lines := [line ''false'']\<rparr>)\<lparr>world := sys0\<rparr>)
       = Ret (session sys0\<lparr>exit_status := 1\<rparr>)
   \<and> shell_loop hsh 1 [''hsh''] None 0 (session (sys0\<lparr>stdin_lines := [line ''false'']\<rparr>)) []
       = shell_loop hsh 1 [''hsh''] None (0 + 1) (session sys0\<lparr>exit_status := 1\<rparr>)
           ([] @ ReadCommand # CheckForComments # [] @
            [CheckForOperator (line ''false''), TokenizeCommand (line ''false''), ProcessCommand [''false'']])
   \<and> shell_loop hsh 1 [''hsh''] None 0 (session (sys0\<lparr>stdin_lines := [line ''false'']\<rparr>)) []
       = Some (Exited 1 [ReadCommand, CheckForComments, CheckForOperator (line ''false''),
                         TokenizeCommand (line ''false''), ProcessCommand [''false''],
                         ReadCommand, CheckForComments, Free])
   \<and> read_command hsh (case None of Some f \<Rightarrow> f | None \<Rightarrow> STDIN) 1
       (world (session (sys0\<lparr>stdin_lines := [line ''false || ls'']\<rparr>))) = (Some (line ''false || ls''), sys0)
   \<and> check_for_operator hsh (line ''false || ls'') = Some ''||''
   \<and> handle_operators hsh [''hsh''] (line ''false || ls'') ''||'' (0 + 1)
        (session (sys0\<lparr>stdin_lines := [line ''false || ls'']\<rparr>)\<lparr>world := sys0\<rparr>)
       = (Ret (session sys0), [TokenizeCommand ''false '', ProcessCommand [''false''],
                               TokenizeCommand (line '' ls''), ProcessCommand [''ls'']])
   \<and> shell_loop hsh 1 [''hsh''] None 0 (session (sys0\<lparr>stdin_lines := [line ''false || ls'']\<rparr>)) []
       = Some (Exited 0 [ReadCommand, CheckForComments, CheckForOperator (line ''false || ls''),
                         HandleOperators (line ''false || ls'') ''||'',
                         TokenizeCommand ''false '', ProcessCommand [''false''],
                         TokenizeCommand (line '' ls''), ProcessCommand [''ls''],
                         ReadCommand, CheckForComments, Free])
   \<and> gate NONE (exit_status (session sys0))
   \<and> tokenize_command_spec ''false '' delims = Some [''false'']
   \<and> process_command_spec [''false''] [''hsh''] 1 (session sys0) = Ret (session sys0\<lparr>exit_status := 1\<rparr>)
   \<and> run_chain tokenize_command_spec process_command_spec [''hsh''] 1
        [(NONE, ''false ''), (OR, '' ls'')] (session sys0)
       = (Ret (session sys0), [TokenizeCommand ''false '', ProcessCommand [''false''],
                               TokenizeCommand '' ls'', ProcessCommand [''ls'']])
   \<and> tokenize_then_dispatch tokenize_command_spec
        [TokenizeCommand ''false '', ProcessCommand [''false''],
         TokenizeCommand '' ls'', ProcessCommand [''ls'']]"
proof -
  have a: "read_command hsh (case None of Some f \<Rightarrow> f | None \<Rightarrow> STDIN) 1
       (world (session (sys0\<lparr>stdin_lines := [line ''false'']\<rparr>))) = (Some (line ''false''), sys0)"
    by (simp add: hsh_simps)
  have b: "(if check_for_comments hsh (Some (line ''false'')) = 1
       then handle_comments hsh (Some (line ''false'')) else Some (line ''false'')) = Some (line ''false'')"
    by (simp add: hsh_simps)
  have c: "tokenize_command_spec ''false '' delims = Some [''false'']"
    by (simp add: tokenize_command_spec_def delims_def split_tokens.simps)
  have d: "process_command_spec [''false''] [''hsh''] 1 (session sys0) = Ret (session sys0\<lparr>exit_status := 1\<rparr>)"
    by (simp add: process_command_spec_def session_def sys0_def)
  have e: "run_chain tokenize_command_spec process_command_spec [''hsh''] 1
        [(NONE, ''false ''), (OR, '' ls'')] (session sys0)
       = (Ret (session sys0), [TokenizeCommand ''false '', ProcessCommand [''false''],
                               TokenizeCommand '' ls'', ProcessCommand [''ls'']])"
    by (simp add: hsh_simps split_tokens.simps)
  have a': "read_command hsh (case None of Some f \<Rightarrow> f | None \<Rightarrow> STDIN) 1
       (world (session (sys0\<lparr>stdin_lines := [line ''false || ls'']\<rparr>))) = (Some (line ''false || ls''), sys0)"
    by (simp add: hsh_simps)
  have b': "(if check_for_comments hsh (Some (line ''false || ls'')) = 1
       then handle_comments hsh (Some (line ''false || ls'')) else Some (line ''false || ls''))
      = Some (line ''false || ls'')"
    by (simp add: hsh_simps)
  have f: "handle_operators hsh [''hsh''] (line ''false || ls'') ''||'' (0 + 1)
        (session (sys0\<lparr>stdin_lines := [line ''false || ls'']\<rparr>)\<lparr>world := sys0\<rparr>)
       = (Ret (session sys0), [TokenizeCommand ''false '', ProcessCommand [''false''],
                               TokenizeCommand (line '' ls''), ProcessCommand [''ls'']])"
    by (simp add: hsh_simps split_tokens.simps)
  from pipeline_order [OF a' b', of "[''false'']" "[''hsh'']" 0 "session sys0" "[]" "''||''"
         "[TokenizeCommand ''false '', ProcessCommand [''false''],
           TokenizeCommand (line '' ls''), ProcessCommand [''ls'']]"
         tokenize_command_spec process_command_spec 1 "[(NONE, ''false ''), (OR, '' ls'')]" "session sys0"
         NONE "''false ''" "[''false'']" "session sys0\<lparr>exit_status := 1\<rparr>" "[(OR, '' ls'')]"]
       pipeline_order [OF a b, of "[''false'']" "[''hsh'']" 0
         "session sys0\<lparr>exit_status := 1\<rparr>" "[]" "''||''" "[]"
         tokenize_command_spec process_command_spec 1 "[(NONE, ''false ''), (OR, '' ls'')]" "session sys0"
         NONE "''false ''" "[''false'']" "session sys0\<lparr>exit_status := 1\<rparr>" "[(OR, '' ls'')]"]
    a b c d e a' f
  show ?thesis
    by (simp add: hsh_simps split_tokens.simps shell_loop.simps)
qed

text \<open>
  C5: when the allocation of an environment set or unset fails, the built-in returns to
  its caller (it does not exit) with the exit status 2 that \<open>print_env_error\<close> returns, one
  diagnostic more, and the Environment Table it had; the session loop goes on to its next
  iteration with these variables.
\<close>

theorem env_failure_keeps_table:
  "(\<not> heap_ok (world v) \<longrightarrow>
      (\<exists>v'. env_builtin op cmd shell_name i v = Ret v'
            \<and> exit_status v' = 2
            \<and> environ (world v') = environ (world v)
            \<and> diagnostics (world v') = diagnostics (world v) @ [(shell_name, i, cmd, env_err_msg)]))
   \<and> (read_and_handle_comments hsh file argc (world v) = (Some l, ic, w', es) \<longrightarrow>
        check_for_operator_spec l = None \<longrightarrow>
        tokenize_command_spec l delims = Some cmd \<longrightarrow>
        cmd = [''setenv'', n, x] \<or> cmd = [''unsetenv'', n] \<longrightarrow>
        \<not> heap_ok w' \<longrightarrow>
        shell_loop hsh argc argv file idx v tr =
          shell_loop hsh argc argv file (idx + 1)
            (v\<lparr>exit_status := 2,
               world := w'\<lparr>diagnostics := diagnostics w' @ [(hd argv, idx + 1, cmd, env_err_msg)]\<rparr>\<rparr>)
            (tr @ es @ [CheckForOperator l, TokenizeCommand l, ProcessCommand cmd]))"
proof (intro conjI impI)
  assume "\<not> heap_ok (world v)"
  from env_builtin_failure [OF this, of op cmd shell_name i]
  show "\<exists>v'. env_builtin op cmd shell_name i v = Ret v'
            \<and> exit_status v' = 2
            \<and> environ (world v') = environ (world v)
            \<and> diagnostics (world v') = diagnostics (world v) @ [(shell_name, i, cmd, env_err_msg)]"
    by simp
next
  assume rd: "read_and_handle_comments hsh file argc (world v) = (Some l, ic, w', es)"
    and op: "check_for_operator_spec l = None"
    and tk: "tokenize_command_spec l delims = Some cmd"
    and cmd: "cmd = [''setenv'', n, x] \<or> cmd = [''unsetenv'', n]"
    and heap: "\<not> heap_ok w'"
  let ?v = "v\<lparr>world := w'\<rparr>"
  from heap have h: "\<not> heap_ok (world ?v)" by simp
  have "process_command_spec cmd argv (idx + 1) ?v =
          Ret (v\<lparr>exit_status := 2,
                 world := w'\<lparr>diagnostics := diagnostics w' @ [(hd argv, idx + 1, cmd, env_err_msg)]\<rparr>\<rparr>)"
    using cmd env_builtin_failure [OF h]
    by (auto simp: process_command_spec_def)
  then have "handle_command_exec hsh l argv (idx + 1) ?v =
          (Ret (v\<lparr>exit_status := 2,
                 world := w'\<lparr>diagnostics := diagnostics w' @ [(hd argv, idx + 1, cmd, env_err_msg)]\<rparr>\<rparr>),
           [CheckForOperator l, TokenizeCommand l, ProcessCommand cmd])"
    using op tk by (simp add: handle_command_exec_def hsh_def)
  from shell_loop_step [OF rd this]
  show "shell_loop hsh argc argv file idx v tr =
          shell_loop hsh argc argv file (idx + 1)
            (v\<lparr>exit_status := 2,
               world := w'\<lparr>diagnostics := diagnostics w' @ [(hd argv, idx + 1, cmd, env_err_msg)]\<rparr>\<rparr>)
            (tr @ es @ [CheckForOperator l, TokenizeCommand l, ProcessCommand cmd])" .
qed


theorem env_failure_keeps_table_witness:
  "\<not> heap_ok (world (session (sys0\<lparr>heap_ok := False, environ := [(''A'', ''0'')]\<rparr>)))
   \<and> env_builtin (SetVar ''A'' ''1'') [''setenv'', ''A'', ''1''] ''hsh'' 1
        (session (sys0\<lparr>heap_ok := False, environ := [(''A'', ''0'')]\<rparr>))
       = Ret (session (sys0\<lparr>heap_ok := False, environ := [(''A'', ''0'')],
                            diagnostics := [(''hsh'', 1, [''setenv'', ''A'', ''1''], env_err_msg)]\<rparr>)
               \<lparr>exit_status := 2\<rparr>)
   \<and> read_and_handle_comments hsh None 1
        (world (session (sys0\<lparr>heap_ok := False, stdin_lines := [line ''setenv A 1'']\<rparr>)))
       = (Some (line ''setenv A 1''), 0, sys0\<lparr>heap_ok := False\<rparr>, [ReadCommand, CheckForComments])
   \<and> check_for_operator_spec (line ''setenv A 1'') = None
   \<and> tokenize_command_spec (line ''setenv A 1'') delims = Some [''setenv'', ''A'', ''1'']
   \<and> \<not> heap_ok (sys0\<lparr>heap_ok := False\<rparr>)
   \<and> shell_loop hsh 1 [''hsh''] None 0
        (session (sys0\<lparr>heap_ok := False, stdin_lines := [line ''setenv A 1'']\<rparr>)) []
       = Some (Exited 2 [ReadCommand, CheckForComments, CheckForOperator (line ''setenv A 1''),
                         TokenizeCommand (line ''setenv A 1''), ProcessCommand [''setenv'', ''A'', ''1''],
                         ReadCommand, CheckForComments, Free])"
proof -
  have a: "read_and_handle_comments hsh None 1
        (world (session (sys0\<lparr>heap_ok := False, stdin_lines := [line ''setenv A 1'']\<rparr>)))
       = (Some (line ''setenv A 1''), 0, sys0\<lparr>heap_ok := False\<rparr>, [ReadCommand, CheckForComments])"
    by (simp add: hsh_simps)
  have b: "check_for_operator_spec (line ''setenv A 1'') = None"
    by (simp add: line_def)
  have c: "tokenize_command_spec (line ''setenv A 1'') delims = Some [''setenv'', ''A'', ''1'']"
    by (simp add: tokenize_command_spec_def line_def delims_def split_tokens.simps)
  from env_failure_keeps_table
         [of "session (sys0\<lparr>heap_ok := False, environ := [(''A'', ''0'')]\<rparr>)"
             "SetVar ''A'' ''1''" "[''setenv'', ''A'', ''1'']" "''hsh''" 1]
       env_failure_keeps_table
         [of "session (sys0\<lparr>heap_ok := False, stdin_lines := [line ''setenv A 1'']\<rparr>)"
             "SetVar ''A'' ''1''" "[''setenv'', ''A'', ''1'']" "''hsh''" 1 None 1
             "line ''setenv A 1''" 0 "sys0\<lparr>heap_ok := False\<rparr>" "[ReadCommand, CheckForComments]"
             "''A''" "''1''" "[''hsh'']" 0 "[]"]
       a b c
  show ?thesis
    by (simp add: hsh_simps env_builtin_def env_set_def print_env_error_def
          print_shell_error_spec_def split_tokens.simps shell_loop.simps)
qed

text \<open>C10: \<open>print_env_error\<close> returns 2 for every argument triple, so never -1.\<close>

theorem print_env_error_returns_2:
  "fst (print_env_error pse cmd shell_name cmd_idx w) = 2
   \<and> fst (print_env_error pse cmd shell_name cmd_idx w) \<noteq> - 1"
  by (simp add: print_env_error_def Let_def)

end
